theory Spec2Isabelle
  imports Main "HOL-Library.AList" "HOL-Library.Sublist"
begin

section \<open>JavaScript strings\<close>

text \<open>
  Strings are lists of code units, and a \<open>char\<close> stands for the code unit of the same
  number: the model holds the strings over U+0000 to U+00FF (ASCII and Latin-1), and
  strings with other code units are outside it. On these, \<^verbatim>\<open>String.prototype.toLowerCase\<close>
  lowers \<open>A\<close> to \<open>Z\<close> and the Latin-1 capitals U+00C0 to U+00DE (the multiplication sign
  U+00D7 excepted) by adding 32, and leaves every other code unit. \<open>indexOf\<close>, \<open>substring\<close> and
  \<open>slice\<close> follow the ECMAScript definitions: \<open>indexOf\<close> yields \<open>-1\<close> when the pattern
  does not occur, \<open>substring\<close> clamps both indices to the length and swaps them when they
  are out of order, \<open>slice\<close> counts a negative index from the end.
\<close>

definition toLowerChar :: "char \<Rightarrow> char" where
  "toLowerChar c =
     (let n = (of_char c :: nat)
      in if (65 \<le> n \<and> n \<le> 90) \<or> (192 \<le> n \<and> n \<le> 222 \<and> n \<noteq> 215)
         then char_of (n + 32) else c)"

definition toLowerCase :: "string \<Rightarrow> string" where
  "toLowerCase s = map toLowerChar s"

fun indexOfFrom :: "string \<Rightarrow> string \<Rightarrow> nat \<Rightarrow> int" where
  "indexOfFrom [] pat i = (if pat = [] then int i else - 1)"
| "indexOfFrom (c # cs) pat i =
     (if prefix pat (c # cs) then int i else indexOfFrom cs pat (Suc i))"

definition indexOf :: "string \<Rightarrow> string \<Rightarrow> int" where
  "indexOf s pat = indexOfFrom s pat 0"

definition substring :: "string \<Rightarrow> nat \<Rightarrow> nat \<Rightarrow> string" where
  "substring s a b =
     (let a' = min a (length s); b' = min b (length s);
          lo = min a' b'; hi = max a' b'
      in take (hi - lo) (drop lo s))"

definition slice :: "string \<Rightarrow> int \<Rightarrow> int \<Rightarrow> string" where
  "slice s a b =
     (let n = int (length s);
          a' = (if a < 0 then max (n + a) 0 else min a n);
          b' = (if b < 0 then max (n + b) 0 else min b n)
      in if a' < b' then take (nat (b' - a')) (drop (nat a') s) else [])"

section \<open>The path library of the runtime (POSIX flavour)\<close>

text \<open>
  The loader calls \<^verbatim>\<open>path.sep\<close>, \<^verbatim>\<open>path.dirname\<close>, \<^verbatim>\<open>path.extname\<close>,
  \<^verbatim>\<open>path.basename\<close> and \<^verbatim>\<open>path.resolve\<close> of Node.js. They are not part of the
  repository; the definitions below follow the documented behaviour of the POSIX
  implementation. \<open>lastSegment\<close> is the portion after the last separator once trailing
  separators are dropped.
\<close>

definition sep :: string where
  "sep = ''/''"

definition lastSegment :: "string \<Rightarrow> string" where
  "lastSegment p =
     rev (takeWhile (\<lambda>c. c \<noteq> CHR ''/'') (dropWhile (\<lambda>c. c = CHR ''/'') (rev p)))"

definition extname :: "string \<Rightarrow> string" where
  "extname p =
     (let b = lastSegment p;
          tl_len = length (takeWhile (\<lambda>c. c \<noteq> CHR ''.'') (rev b))
      in if CHR ''.'' \<notin> set b then []
         else let d = length b - tl_len - 1
              in if d = 0 \<or> b = ''..'' then [] else drop d b)"

definition basename :: "string \<Rightarrow> string \<Rightarrow> string" where
  "basename p ext =
     (let b = lastSegment p
      in if ext \<noteq> [] \<and> ext = p then []
         else if ext \<noteq> [] \<and> ext \<noteq> b \<and> suffix ext b then take (length b - length ext) b
         else b)"

text \<open>
  \<open>dirScan\<close> is the backwards loop of \<^verbatim>\<open>dirname\<close> over the indices
  \<open>length p - 1, ..., 1\<close>: it skips the trailing separators and yields the index of the
  separator that ends the directory part.
\<close>

fun dirScan :: "bool \<Rightarrow> string \<Rightarrow> nat option" where
  "dirScan matchedSlash [] = None"
| "dirScan matchedSlash (c # cs) =
     (if c = CHR ''/''
      then (if \<not> matchedSlash then Some (Suc (length cs)) else dirScan matchedSlash cs)
      else dirScan False cs)"

definition dirname :: "string \<Rightarrow> string" where
  "dirname p =
     (if p = [] then ''.''
      else let hasRoot = (hd p = CHR ''/'')
           in case dirScan True (rev (tl p)) of
                None \<Rightarrow> (if hasRoot then ''/'' else ''.'')
              | Some e \<Rightarrow> (if hasRoot \<and> e = 1 then ''//'' else take e p))"

text \<open>
  \<^verbatim>\<open>path.resolve(p)\<close> with one argument: a relative \<open>p\<close> is appended to the working
  directory, the result is split at the separators and normalised (\<open>.\<close> and empty segments
  vanish, \<open>..\<close> removes the segment before it).
\<close>

fun splitOn :: "char \<Rightarrow> string \<Rightarrow> string \<Rightarrow> string list" where
  "splitOn d acc [] = [rev acc]"
| "splitOn d acc (c # cs) = (if c = d then rev acc # splitOn d [] cs else splitOn d (c # acc) cs)"

fun normalizeSegments :: "bool \<Rightarrow> string list \<Rightarrow> string list \<Rightarrow> string list" where
  "normalizeSegments allowAboveRoot stack [] = rev stack"
| "normalizeSegments allowAboveRoot stack (seg # segs) =
     (if seg = [] \<or> seg = ''.'' then normalizeSegments allowAboveRoot stack segs
      else if seg = ''..'' then
        (case stack of
           seg0 # rest \<Rightarrow>
             (if seg0 \<noteq> ''..'' then normalizeSegments allowAboveRoot rest segs
              else if allowAboveRoot then normalizeSegments allowAboveRoot (seg # stack) segs
              else normalizeSegments allowAboveRoot stack segs)
         | [] \<Rightarrow>
             (if allowAboveRoot then normalizeSegments allowAboveRoot [seg] segs
              else normalizeSegments allowAboveRoot [] segs))
      else normalizeSegments allowAboveRoot (seg # stack) segs)"

fun joinWith :: "string \<Rightarrow> string list \<Rightarrow> string" where
  "joinWith d [] = []"
| "joinWith d [x] = x"
| "joinWith d (x # y # ys) = x @ d @ joinWith d (y # ys)"

definition isAbsolute :: "string \<Rightarrow> bool" where
  "isAbsolute p = (case p of [] \<Rightarrow> False | c # _ \<Rightarrow> c = CHR ''/'')"

definition resolve :: "string \<Rightarrow> string \<Rightarrow> string" where
  "resolve workdir p =
     (let joined = (if isAbsolute p then p
                    else if p = [] then workdir
                    else if workdir = [] then p
                    else workdir @ ''/'' @ p);
          resolvedAbsolute = isAbsolute joined;
          body = joinWith ''/''
                   (normalizeSegments (\<not> resolvedAbsolute) [] (splitOn (CHR ''/'') [] joined))
      in if resolvedAbsolute then ''/'' @ body
         else if body \<noteq> [] then body else ''.'')"

text \<open>
  \<^verbatim>\<open>path.normalize\<close> keeps a trailing separator, and \<^verbatim>\<open>path.join\<close> of two arguments
  normalises the arguments that are not empty, joined by a separator.
\<close>

definition normalize :: "string \<Rightarrow> string" where
  "normalize p =
     (if p = [] then ''.''
      else let absolute = isAbsolute p;
               trailingSeparator = (last p = CHR ''/'');
               body = joinWith ''/''
                        (normalizeSegments (\<not> absolute) [] (splitOn (CHR ''/'') [] p))
           in if body = [] then (if absolute then ''/'' else if trailingSeparator then ''./'' else ''.'')
              else (if absolute then ''/'' else []) @ body
                   @ (if trailingSeparator then ''/'' else []))"

definition join :: "string \<Rightarrow> string \<Rightarrow> string" where
  "join a b =
     (let joined = (if a = [] then b else if b = [] then a else a @ ''/'' @ b)
      in if joined = [] then ''.'' else normalize joined)"

section \<open>Data model\<close>

text \<open>
  JavaScript can throw any value: \<open>Nullish\<close> is \<^verbatim>\<open>undefined\<close> or \<^verbatim>\<open>null\<close>,
  \<open>ErrorObject\<close> an instance of \<^verbatim>\<open>Error\<close> with its message, \<open>OtherValue\<close> any other
  value, by its printed form. A constructor function has a
  name (\<^verbatim>\<open>constructor.name\<close>) and either returns a new object or throws. A resolved module
  is an object with an identity and the constructor functions it exports (the entry
  \<open>default\<close> is the default export; an export that is not a function is not listed).
  A loaded unit, the type parameter \<^verbatim>\<open>T\<close> of the loader, is either the object a
  constructor made (identified by its allocation number) or the raw module. Both are
  objects, so every unit is truthy: \<^verbatim>\<open>import(filePath)\<close> resolves to a module namespace
  object. The synchronous variants of the operations, which go through \<^verbatim>\<open>require\<close>,
  are not modelled.
\<close>

datatype thrown_value = Nullish | ErrorObject string | OtherValue string

record ctor =
  ctor_name :: string
  ctor_throws :: "thrown_value option"

datatype module = Module nat (exports: "(string \<times> ctor) list")

datatype loaded_unit = Instance nat string | Raw module

text \<open>
  What an operation fails with: the classes of \<^verbatim>\<open>errors.ts\<close> with their fields (the
  wrapped value first), the \<^verbatim>\<open>TypeError\<close> of the runtime, a value thrown by a hook or a
  constructor that no handler wraps (\<open>Thrown\<close>), and the error the event emitter
  raises for an \<open>error\<close> event that nobody listens to when the payload is no
  \<^verbatim>\<open>Error\<close> (\<open>UnhandledError\<close>).
\<close>

datatype error =
    ConfigError
  | FileNotFoundError string
  | FileLoadError thrown_value string
  | LoadFilesError thrown_value string
  | DestroyFileError thrown_value string loaded_unit
  | TypeError
  | Thrown thrown_value
  | UnhandledError thrown_value

datatype event =
    Ready
  | Load "string option" loaded_unit
  | Unload loaded_unit
  | Reload loaded_unit loaded_unit
  | LoadMany "loaded_unit list"
  | ErrorEvent error

datatype main_file = Literal string | Resolver "string \<Rightarrow> string"

text \<open>
  \<^verbatim>\<open>ClassOptions\<close>: the hooks \<open>destroy\<close> and \<open>reload\<close> are caller-supplied; a hook
  yields \<open>None\<close> when it completes and \<open>Some v\<close> when it throws or rejects with \<open>v\<close>.
  \<open>findConstructorOpt\<close> yields \<open>None\<close> for a result that is not a function.
\<close>

record class_options =
  instantiate :: bool
  findConstructorOpt :: "(string \<Rightarrow> module \<Rightarrow> ctor option) option"
  destroy :: "(loaded_unit \<Rightarrow> thrown_value option) option"
  reloadHook :: "(loaded_unit \<Rightarrow> loaded_unit \<Rightarrow> thrown_value option) option"

record loader_options =
  opt_path :: string
  opt_nested :: bool
  opt_mainFile :: "main_file option"
  opt_ignored :: "string list option"
  opt_autoLoad :: "bool option"
  opt_classes :: "class_options option"
  opt_allowedFileExts :: "string list option"
  opt_watch :: bool

text \<open>
  The fields of a \<^verbatim>\<open>Loader\<close>. The three JavaScript maps are association lists
  (\<open>AList.update\<close> overwrites in place or appends, as \<^verbatim>\<open>Map.set\<close> does). \<open>watcher\<close> is
  the set of paths handed to the file watcher, \<open>None\<close> when no watcher was set up.
  \<open>events\<close> lists the emitted events, oldest first; \<open>next_id\<close> numbers the objects
  allocated by constructors.
\<close>

record loader =
  path :: string
  nested :: bool
  mainFile :: main_file
  classes :: class_options
  allowedFileExts :: "string list"
  ignored :: "string list"
  fileMap :: "(string \<times> loaded_unit) list"
  nameMap :: "(loaded_unit \<times> string) list"
  pathMap :: "(string \<times> string) list"
  watch :: bool
  watcher :: "string list option"
  ready :: bool
  events :: "event list"
  next_id :: nat

text \<open>
  What the loader reads from its surroundings: the working directory, the extension of
  the loader's own file (\<^verbatim>\<open>fileExt\<close>), the module resolution \<^verbatim>\<open>import(filePath)\<close>,
  which rejects with a value or yields a module, the directory listing
  \<^verbatim>\<open>fs.readdir(dir)\<close>, and whether the host listens to the \<open>error\<close> event.
\<close>

record world =
  cwd :: string
  fileExt :: string
  importFile :: "string \<Rightarrow> thrown_value + module"
  readdir :: "string \<Rightarrow> thrown_value + string list"
  errorListener :: bool

section \<open>The error classes\<close>

text \<open>
  \<^verbatim>\<open>FileLoadError\<close>, \<^verbatim>\<open>LoadFilesError\<close> and \<^verbatim>\<open>DestroyFileError\<close> extend
  \<^verbatim>\<open>ProxyError\<close>, whose constructor reads \<^verbatim>\<open>err.message\<close> and \<^verbatim>\<open>err.stack\<close> of
  the wrapped value. Reading a property of \<^verbatim>\<open>undefined\<close> or \<^verbatim>\<open>null\<close> throws a
  \<^verbatim>\<open>TypeError\<close>, so \<^verbatim>\<open>new\<close> on these classes fails for such a value.
\<close>

definition ProxyError :: "thrown_value \<Rightarrow> error \<Rightarrow> error" where
  "ProxyError err made = (if err = Nullish then TypeError else made)"

definition new_FileLoadError :: "thrown_value \<Rightarrow> string \<Rightarrow> error" where
  "new_FileLoadError err filePath = ProxyError err (FileLoadError err filePath)"

definition new_LoadFilesError :: "thrown_value \<Rightarrow> string \<Rightarrow> error" where
  "new_LoadFilesError err dir = ProxyError err (LoadFilesError err dir)"

definition new_DestroyFileError :: "thrown_value \<Rightarrow> string \<Rightarrow> loaded_unit \<Rightarrow> error" where
  "new_DestroyFileError err filePath inst = ProxyError err (DestroyFileError err filePath inst)"

section \<open>The loader\<close>

definition processName :: "string \<Rightarrow> string" where
  "processName name = toLowerCase name"

definition defaultClassOptions :: class_options where
  "defaultClassOptions =
     \<lparr>instantiate = True, findConstructorOpt = None, destroy = None, reloadHook = None\<rparr>"

definition defaultAllowedExts :: "string list" where
  "defaultAllowedExts = [''.js'', ''.ts'']"

definition mainFileFalsy :: "main_file \<Rightarrow> bool" where
  "mainFileFalsy m = (case m of Literal s \<Rightarrow> s = [] | Resolver f \<Rightarrow> False)"

text \<open>
  The constructor. \<^verbatim>\<open>opts.mainFile || 'index' + fileExt\<close> takes the default for an absent
  or empty main file. The last disjunct of the guard, \<^verbatim>\<open>!this.files\<close>, tests a map
  object and is never true. With \<^verbatim>\<open>autoLoad\<close> the constructor starts \<^verbatim>\<open>loadFiles()\<close>
  without awaiting it; that asynchronous run is not part of the value constructed here.
\<close>

definition Loader_constructor :: "world \<Rightarrow> loader_options \<Rightarrow> error + loader" where
  "Loader_constructor w opts =
     (let s = \<lparr>path = resolve (cwd w) (opt_path opts),
               nested = opt_nested opts,
               mainFile = (case opt_mainFile opts of
                             None \<Rightarrow> Literal (''index'' @ fileExt w)
                           | Some m \<Rightarrow> if mainFileFalsy m then Literal (''index'' @ fileExt w) else m),
               classes = (case opt_classes opts of None \<Rightarrow> defaultClassOptions | Some c \<Rightarrow> c),
               allowedFileExts = (case opt_allowedFileExts opts of
                                    None \<Rightarrow> defaultAllowedExts | Some es \<Rightarrow> es),
               ignored = (case opt_ignored opts of None \<Rightarrow> [] | Some xs \<Rightarrow> xs),
               fileMap = [], nameMap = [], pathMap = [],
               watch = opt_watch opts,
               watcher = (if opt_watch opts then Some [] else None),
               ready = False, events = [], next_id = 0\<rparr>
      in if path s = [] \<or> (nested s \<and> mainFileFalsy (mainFile s)) \<or> False
         then Inl ConfigError else Inr s)"

definition findConstructor :: "loader \<Rightarrow> string \<Rightarrow> module \<Rightarrow> ctor option" where
  "findConstructor s name mdl =
     (case findConstructorOpt (classes s) of
        Some f \<Rightarrow> f name mdl
      | None \<Rightarrow> map_of (exports mdl) ''default'')"

definition findPathFromName :: "loader \<Rightarrow> string \<Rightarrow> string option" where
  "findPathFromName s name = map_of (pathMap s) (processName name)"

definition extractNameFromFilePath :: "loader \<Rightarrow> string \<Rightarrow> string" where
  "extractNameFromFilePath s filePath =
     (if nested s then dirname filePath else basename filePath (extname filePath))"

definition getWatchPath :: "loader \<Rightarrow> string \<Rightarrow> string" where
  "getWatchPath s filePath = (if nested s then dirname filePath else filePath)"

definition watcher_add :: "string \<Rightarrow> string list \<Rightarrow> string list" where
  "watcher_add p ws = (if p \<in> set ws then ws else ws @ [p])"

definition watcher_unwatch :: "string \<Rightarrow> string list \<Rightarrow> string list" where
  "watcher_unwatch p ws = removeAll p ws"

text \<open>
  \<^verbatim>\<open>initFile(name, filePath, file)\<close>. A falsy name (absent or empty) is replaced by the
  name extracted from the path. The rows of \<open>pathMap\<close> and \<open>nameMap\<close> are written with that
  name, inside the branch that instantiates; the assignment
  \<^verbatim>\<open>name = constructor.name\<close> that follows changes a local variable only.
\<close>

definition nameOrExtract :: "loader \<Rightarrow> string option \<Rightarrow> string \<Rightarrow> string" where
  "nameOrExtract s name filePath =
     (case name of
        None \<Rightarrow> extractNameFromFilePath s filePath
      | Some n \<Rightarrow> if n = [] then extractNameFromFilePath s filePath else n)"

definition initFile ::
  "string option \<Rightarrow> string \<Rightarrow> module \<Rightarrow> loader \<Rightarrow> (error + loaded_unit) \<times> loader" where
  "initFile name filePath file s =
     (let name1 = nameOrExtract s name filePath;
          s1 = s\<lparr>watcher := map_option (watcher_add (getWatchPath s filePath)) (watcher s)\<rparr>;
          found = (if instantiate (classes s1) then findConstructor s1 name1 file else None)
      in case found of
           Some c \<Rightarrow>
             (case ctor_throws c of
                Some e \<Rightarrow> (Inl (Thrown e), s1)
              | None \<Rightarrow>
                  (let inst = Instance (next_id s1) (ctor_name c);
                       s2 = s1\<lparr>next_id := Suc (next_id s1),
                               pathMap := AList.update (processName name1) filePath (pathMap s1),
                               nameMap := AList.update inst name1 (nameMap s1)\<rparr>
                   in (Inr inst, s2\<lparr>fileMap := AList.update filePath inst (fileMap s2)\<rparr>)))
         | None \<Rightarrow> (Inr (Raw file), s1\<lparr>fileMap := AList.update filePath (Raw file) (fileMap s1)\<rparr>))"

definition emit :: "event \<Rightarrow> loader \<Rightarrow> loader" where
  "emit e s = s\<lparr>events := events s @ [e]\<rparr>"

definition loadFromPath ::
  "world \<Rightarrow> string \<Rightarrow> string option \<Rightarrow> bool \<Rightarrow> loader \<Rightarrow> (error + loaded_unit) \<times> loader" where
  "loadFromPath w filePath name doEmit s =
     (case map_of (fileMap s) filePath of
        Some oldInstance \<Rightarrow> (Inr oldInstance, s)
      | None \<Rightarrow>
          (case importFile w filePath of
             Inl err \<Rightarrow> (Inl (new_FileLoadError err filePath), s)
           | Inr file \<Rightarrow>
               (case initFile name filePath file s of
                  (Inl e, s1) \<Rightarrow> (Inl e, s1)
                | (Inr u, s1) \<Rightarrow> (Inr u, if doEmit then emit (Load name u) s1 else s1))))"

text \<open>
  \<^verbatim>\<open>isFileValid\<close> and \<^verbatim>\<open>getMainFilePath\<close> take the nesting mode as an argument here;
  the default of that parameter, \<^verbatim>\<open>this.nested\<close>, is supplied where they are called.
\<close>

definition isFileValid :: "loader \<Rightarrow> string \<Rightarrow> bool \<Rightarrow> bool" where
  "isFileValid s file nestedArg =
     (let ext = toLowerCase (extname file)
      in if (nestedArg \<and> ext \<noteq> []) \<or> (\<not> nestedArg \<and> ext \<notin> set (allowedFileExts s)) then False
         else if file \<in> set (ignored s) then False
         else True)"

definition getMainFilePath :: "loader \<Rightarrow> string \<Rightarrow> string \<Rightarrow> bool \<Rightarrow> string" where
  "getMainFilePath s fileName dir nestedArg =
     (let fileName1 = join dir fileName
      in if nestedArg then
           (case mainFile s of
              Resolver f \<Rightarrow> f fileName1
            | Literal m \<Rightarrow> join fileName1 m)
         else fileName1)"

definition loadFromFileName :: "world \<Rightarrow> string \<Rightarrow> loader \<Rightarrow> (error + loaded_unit) \<times> loader" where
  "loadFromFileName w fileName s =
     loadFromPath w (getMainFilePath s fileName (path s) (nested s)) None True s"

text \<open>
  \<^verbatim>\<open>this.emit('error', err)\<close>: with a listener the event is delivered; without one the
  event emitter throws the payload itself when it is an \<^verbatim>\<open>Error\<close>, and an error that
  wraps it otherwise.
\<close>

definition emitError :: "world \<Rightarrow> error \<Rightarrow> loader \<Rightarrow> error + loader" where
  "emitError w err s =
     (if errorListener w then Inr (emit (ErrorEvent err) s)
      else Inl (case err of
                  Thrown v \<Rightarrow> (case v of ErrorObject m \<Rightarrow> Thrown v | _ \<Rightarrow> UnhandledError v)
                | _ \<Rightarrow> err))"

text \<open>
  \<^verbatim>\<open>loadFiles(dir, nested)\<close>. \<open>loadFilesLoop\<close> is its loop over the directory listing:
  an entry that is not valid is skipped, a failed load becomes an \<open>error\<close> event and the
  loop goes on, unless emitting that event throws, which ends the whole call. After the
  loop come \<open>load-many\<close> and, the first time, the ready flag and \<open>ready\<close>.
\<close>

fun loadFilesLoop ::
  "world \<Rightarrow> string \<Rightarrow> bool \<Rightarrow> string list \<Rightarrow> loaded_unit list \<Rightarrow> loader
   \<Rightarrow> (error + loaded_unit list) \<times> loader" where
  "loadFilesLoop w dir nestedArg [] instances s = (Inr instances, s)"
| "loadFilesLoop w dir nestedArg (fileName # files) instances s =
     (if \<not> isFileValid s fileName nestedArg then loadFilesLoop w dir nestedArg files instances s
      else case loadFromPath w (getMainFilePath s fileName dir nestedArg) None True s of
             (Inr u, s1) \<Rightarrow> loadFilesLoop w dir nestedArg files (instances @ [u]) s1
           | (Inl err, s1) \<Rightarrow>
               (case emitError w err s1 of
                  Inl thrownError \<Rightarrow> (Inl thrownError, s1)
                | Inr s2 \<Rightarrow> loadFilesLoop w dir nestedArg files instances s2))"

definition loadFiles ::
  "world \<Rightarrow> string option \<Rightarrow> bool option \<Rightarrow> loader \<Rightarrow> (error + loaded_unit list) \<times> loader" where
  "loadFiles w dirArg nestedArg s =
     (let dir = (case dirArg of None \<Rightarrow> path s | Some d \<Rightarrow> d);
          nested1 = (if nested s \<and> dir = path s then Some True else nestedArg);
          nestedEff = (case nested1 of None \<Rightarrow> nested s | Some b \<Rightarrow> b)
      in case readdir w dir of
           Inl err \<Rightarrow> (Inl (new_LoadFilesError err dir), s)
         | Inr files \<Rightarrow>
             (case loadFilesLoop w dir nestedEff files [] s of
                (Inl e, s1) \<Rightarrow> (Inl e, s1)
              | (Inr instances, s1) \<Rightarrow>
                  (let s2 = emit (LoadMany instances) s1;
                       s3 = (if \<not> ready s2 then emit Ready (s2\<lparr>ready := True\<rparr>) else s2)
                   in (Inr instances, s3))))"

definition runDestroy :: "loader \<Rightarrow> loaded_unit \<Rightarrow> thrown_value option" where
  "runDestroy s u = (case destroy (classes s) of None \<Rightarrow> None | Some d \<Rightarrow> d u)"

definition unloadFromPath ::
  "string \<Rightarrow> bool \<Rightarrow> loader \<Rightarrow> (error + loaded_unit option) \<times> loader" where
  "unloadFromPath filePath doEmit s =
     (case map_of (fileMap s) filePath of
        None \<Rightarrow> (Inr None, s)
      | Some inst \<Rightarrow>
          (let s1 = s\<lparr>watcher :=
                        map_option (watcher_unwatch (getWatchPath s filePath)) (watcher s)\<rparr>;
               name = map_of (nameMap s1) inst
           in case runDestroy s1 inst of
                Some err \<Rightarrow> (Inl (new_DestroyFileError err filePath inst), s1)
              | None \<Rightarrow>
                  (let s2 = s1\<lparr>fileMap := AList.delete filePath (fileMap s1),
                               pathMap := (case name of
                                             None \<Rightarrow> pathMap s1
                                           | Some n \<Rightarrow> AList.delete n (pathMap s1)),
                               nameMap := AList.delete inst (nameMap s1)\<rparr>
                   in (Inr (Some inst), if doEmit then emit (Unload inst) s2 else s2))))"

definition unload :: "string \<Rightarrow> loader \<Rightarrow> (error + loaded_unit option) \<times> loader" where
  "unload name s =
     (case findPathFromName s name of
        None \<Rightarrow> (Inr None, s)
      | Some filePath \<Rightarrow> if filePath = [] then (Inr None, s) else unloadFromPath filePath True s)"

definition runReload :: "loader \<Rightarrow> loaded_unit \<Rightarrow> loaded_unit \<Rightarrow> thrown_value option" where
  "runReload s newInstance oldInstance =
     (case reloadHook (classes s) of None \<Rightarrow> None | Some h \<Rightarrow> h newInstance oldInstance)"

text \<open>
  \<^verbatim>\<open>reloadFromPath(filePath)\<close>: the unload comes first and emits; the name handed to the
  load is read from \<open>nameMap\<close> after the unload. The entry of the module cache that the
  function deletes belongs to the world, whose \<open>importFile\<close> is the resolution after
  that deletion.
\<close>

definition reloadFromPath ::
  "world \<Rightarrow> string \<Rightarrow> loader \<Rightarrow> (error + loaded_unit option) \<times> loader" where
  "reloadFromPath w filePath s =
     (case unloadFromPath filePath True s of
        (Inl e, s1) \<Rightarrow> (Inl e, s1)
      | (Inr None, s1) \<Rightarrow> (Inr None, s1)
      | (Inr (Some oldInstance), s1) \<Rightarrow>
          (case loadFromPath w filePath (map_of (nameMap s1) oldInstance) False s1 of
             (Inl e, s2) \<Rightarrow> (Inl e, s2)
           | (Inr newInstance, s2) \<Rightarrow>
               (case runReload s2 newInstance oldInstance of
                  Some err \<Rightarrow> (Inl (Thrown err), s2)
                | None \<Rightarrow> (Inr (Some newInstance), emit (Reload newInstance oldInstance) s2))))"

definition reload :: "world \<Rightarrow> string \<Rightarrow> loader \<Rightarrow> (error + loaded_unit option) \<times> loader" where
  "reload w name s =
     (case findPathFromName s name of
        None \<Rightarrow> (Inl (FileNotFoundError name), s)
      | Some filePath \<Rightarrow>
          if filePath = [] then (Inl (FileNotFoundError name), s) else reloadFromPath w filePath s)"

text \<open>
  The handler that \<^verbatim>\<open>setupWatcher\<close> registers for every watcher notification.
  \<open>watchedFilePath\<close> is its local variable \<^verbatim>\<open>filePath\<close> after the nested-mode branch;
  \<open>onWatcherEvent\<close> is the whole handler, \<open>None\<close> when the notification is dropped.
\<close>

definition watchedFilePath :: "loader \<Rightarrow> string \<Rightarrow> string" where
  "watchedFilePath s srcPath =
     (if nested s then
        (if indexOf srcPath (path s) = 0 then
           (let relativePath = substring srcPath (length (path s) + length sep) (length srcPath);
                firstSepIndex = indexOf relativePath sep
            in if firstSepIndex = - 1 then srcPath
               else slice relativePath 0 (- int (length relativePath) + firstSepIndex))
         else srcPath)
      else srcPath)"

definition onWatcherEvent ::
  "world \<Rightarrow> string \<Rightarrow> loader \<Rightarrow> ((error + loaded_unit option) \<times> loader) option" where
  "onWatcherEvent w srcPath s =
     (let filePath = watchedFilePath s srcPath
      in if filePath \<in> fst ` set (fileMap s) then Some (reloadFromPath w filePath s) else None)"


section \<open>Runs without name collisions\<close>

text \<open>
  \<open>distinctNames s\<close>: no two rows of \<open>nameMap\<close> hold names that agree up to case.
  \<open>reachable\<close> collects the loader states produced by the constructor and then by the
  operations of the loader and by watcher notifications, where every operation that can
  load leaves the registered names distinct up to case. A call that registers no name
  keeps the rows it finds, so the condition asks nothing of it.
\<close>

definition distinctNames :: "loader \<Rightarrow> bool" where
  "distinctNames s = distinct (map (\<lambda>(u, n). processName n) (nameMap s))"

inductive reachable :: "loader \<Rightarrow> bool" where
  constructed: "Loader_constructor w opts = Inr s \<Longrightarrow> reachable s"
| filesLoaded: "reachable s \<Longrightarrow> distinctNames (snd (loadFiles w dirArg nestedArg s))
    \<Longrightarrow> reachable (snd (loadFiles w dirArg nestedArg s))"
| loaded: "reachable s \<Longrightarrow> distinctNames (snd (loadFromPath w filePath name doEmit s))
    \<Longrightarrow> reachable (snd (loadFromPath w filePath name doEmit s))"
| loadedByFileName: "reachable s \<Longrightarrow> distinctNames (snd (loadFromFileName w fileName s))
    \<Longrightarrow> reachable (snd (loadFromFileName w fileName s))"
| unloaded: "reachable s \<Longrightarrow> reachable (snd (unloadFromPath filePath doEmit s))"
| unloadedByName: "reachable s \<Longrightarrow> reachable (snd (unload name s))"
| reloaded: "reachable s \<Longrightarrow> distinctNames (snd (reloadFromPath w filePath s))
    \<Longrightarrow> reachable (snd (reloadFromPath w filePath s))"
| reloadedByName: "reachable s \<Longrightarrow> distinctNames (snd (reload w name s))
    \<Longrightarrow> reachable (snd (reload w name s))"
| watched: "reachable s \<Longrightarrow> onWatcherEvent w srcPath s = Some (r, s') \<Longrightarrow> distinctNames s'
    \<Longrightarrow> reachable s'"

text \<open>
  \<open>stepwise\<close> breaks these runs into their steps: the three operations by path, the
  emission of an event and the setting of the ready flag. The other operations are made
  of these steps.
\<close>

inductive stepwise :: "loader \<Rightarrow> bool" where
  constructed: "Loader_constructor w opts = Inr s \<Longrightarrow> stepwise s"
| loaded: "stepwise s \<Longrightarrow> distinctNames (snd (loadFromPath w filePath name doEmit s))
    \<Longrightarrow> stepwise (snd (loadFromPath w filePath name doEmit s))"
| unloaded: "stepwise s \<Longrightarrow> stepwise (snd (unloadFromPath filePath doEmit s))"
| reloaded: "stepwise s \<Longrightarrow> distinctNames (snd (reloadFromPath w filePath s))
    \<Longrightarrow> stepwise (snd (reloadFromPath w filePath s))"
| emitted: "stepwise s \<Longrightarrow> stepwise (emit e s)"
| readied: "stepwise s \<Longrightarrow> stepwise (s\<lparr>ready := True\<rparr>)"

text \<open>
  \<open>nameFree s n\<close>: no row of \<open>nameMap\<close> holds a name equal to \<open>n\<close> up to case.
\<close>

definition nameFree :: "loader \<Rightarrow> string \<Rightarrow> bool" where
  "nameFree s n = list_all (\<lambda>(u, n'). processName n' \<noteq> processName n) (nameMap s)"

text \<open>
  The invariant behind the round trip: every loaded instance is older than the allocation
  counter and has a name row whose lowered name leads back to its path, and every name row
  belongs to a loaded instance.
\<close>

definition identityInv :: "loader \<Rightarrow> bool" where
  "identityInv s \<longleftrightarrow>
     (\<forall>p i c. map_of (fileMap s) p = Some (Instance i c) \<longrightarrow>
        i < next_id s \<and>
        (\<exists>n. map_of (nameMap s) (Instance i c) = Some n \<and>
             map_of (pathMap s) (processName n) = Some p)) \<and>
     (\<forall>u n. map_of (nameMap s) u = Some n \<longrightarrow>
        (\<exists>p i c. u = Instance i c \<and> map_of (fileMap s) p = Some u))"

text \<open>
  \<open>namesFresh\<close>: every instance with a name row is older than the allocation counter.
\<close>

definition namesFresh :: "loader \<Rightarrow> bool" where
  "namesFresh s \<longleftrightarrow> (\<forall>i c. map_of (nameMap s) (Instance i c) \<noteq> None \<longrightarrow> i < next_id s)"

section \<open>Example inputs\<close>

text \<open>
  A world in which four files resolve to a module whose default export is the class
  \<open>Widget\<close> and the directory \<open>/srv/files\<close> lists three of them and a text file; a flat loader, a flat
  loader that keeps raw modules, a nested loader with a watcher and no main-file rule, a
  loader whose destroy hook rejects with an \<^verbatim>\<open>Error\<close>, and one whose hook rejects with
  \<^verbatim>\<open>undefined\<close>.
\<close>

definition widgetCtor :: ctor where
  "widgetCtor = \<lparr>ctor_name = ''Widget'', ctor_throws = None\<rparr>"

definition widgetModule :: module where
  "widgetModule = Module 0 [(''default'', widgetCtor)]"

definition fooPath :: string where
  "fooPath = ''/srv/files/Foo.ts''"

definition aPath :: string where
  "aPath = ''/srv/files/a.ts''"

definition aJsPath :: string where
  "aJsPath = ''/srv/files/a.js''"

definition bakeryPath :: string where
  "bakeryPath = ''/srv/mods/bakery/index.ts''"

definition demoWorld :: world where
  "demoWorld =
     \<lparr>cwd = ''/srv'', fileExt = ''.ts'',
      importFile = (\<lambda>p. if p \<in> {fooPath, aPath, aJsPath, bakeryPath}
                         then Inr widgetModule else Inl (ErrorObject ''Cannot find module'')),
      readdir = (\<lambda>d. if d = ''/srv/files'' then Inr [''a.ts'', ''a.js'', ''notes.md'', ''Foo.ts'']
                      else Inl (ErrorObject ''ENOENT'')),
      errorListener = True\<rparr>"


definition flatLoader :: loader where
  "flatLoader =
     \<lparr>path = ''/srv/files'', nested = False, mainFile = Literal ''index.ts'',
      classes = defaultClassOptions, allowedFileExts = defaultAllowedExts, ignored = [],
      fileMap = [], nameMap = [], pathMap = [], watch = False, watcher = None,
      ready = False, events = [], next_id = 0\<rparr>"


definition nestedOptions :: loader_options where
  "nestedOptions =
     \<lparr>opt_path = ''/srv/mods'', opt_nested = True, opt_mainFile = None, opt_ignored = None,
      opt_autoLoad = Some False, opt_classes = None, opt_allowedFileExts = None,
      opt_watch = True\<rparr>"

definition nestedLoader :: loader where
  "nestedLoader =
     \<lparr>path = ''/srv/mods'', nested = True, mainFile = Literal ''index.ts'',
      classes = defaultClassOptions, allowedFileExts = defaultAllowedExts, ignored = [],
      fileMap = [], nameMap = [], pathMap = [], watch = True, watcher = Some [],
      ready = False, events = [], next_id = 0\<rparr>"

definition destroyFailsLoader :: loader where
  "destroyFailsLoader =
     \<lparr>path = ''/srv/files'', nested = False, mainFile = Literal ''index.ts'',
      classes = \<lparr>instantiate = True, findConstructorOpt = None,
                 destroy = Some (\<lambda>u. Some (ErrorObject ''teardown failed'')),
                 reloadHook = None\<rparr>,
      allowedFileExts = defaultAllowedExts, ignored = [],
      fileMap = [(aPath, Instance 0 ''Widget'')],
      nameMap = [(Instance 0 ''Widget'', ''a'')],
      pathMap = [(''a'', aPath)], watch = True, watcher = Some [aPath],
      ready = False, events = [Load None (Instance 0 ''Widget'')], next_id = 1\<rparr>"

definition destroyRejectsLoader :: loader where
  "destroyRejectsLoader =
     destroyFailsLoader
       \<lparr>classes := \<lparr>instantiate = True, findConstructorOpt = None,
                     destroy = Some (\<lambda>u. Some Nullish), reloadHook = None\<rparr>\<rparr>"

definition fooLoaded :: loader where
  "fooLoaded = snd (loadFromPath demoWorld fooPath None True flatLoader)"

definition fooUnloaded :: loader where
  "fooUnloaded = snd (unloadFromPath fooPath True fooLoaded)"

definition customLoaded :: loader where
  "customLoaded = snd (loadFromPath demoWorld aPath (Some ''custom'') True flatLoader)"

definition customReloaded :: loader where
  "customReloaded = snd (reloadFromPath demoWorld aPath customLoaded)"

definition aLoaded :: loader where
  "aLoaded = snd (loadFromPath demoWorld aPath None True flatLoader)"



definition filesLoaded :: loader where
  "filesLoaded = snd (loadFiles demoWorld None None flatLoader)"

definition plainWorld :: world where
  "plainWorld = demoWorld\<lparr>importFile := (\<lambda>p. Inr (Module 1 []))\<rparr>"

definition fooReloadedRaw :: loader where
  "fooReloadedRaw = snd (loadFromPath plainWorld fooPath None True fooUnloaded)"


definition bakeryLoaded :: loader where
  "bakeryLoaded = snd (loadFromPath demoWorld bakeryPath None True nestedLoader)"

section \<open>Facts about the operations\<close>

lemma resolve_nonempty: "resolve workdir p \<noteq> []"
  by (simp add: resolve_def Let_def)


lemma nestedLoader_constructed: "Loader_constructor demoWorld nestedOptions = Inr nestedLoader"
  by (simp add: Loader_constructor_def nestedOptions_def nestedLoader_def demoWorld_def Let_def
      resolve_def isAbsolute_def mainFileFalsy_def)

lemma initFile_fileMap:
  "initFile name filePath mdl s = (Inr u, s1) \<Longrightarrow> map_of (fileMap s1) filePath = Some u"
  by (auto simp: initFile_def Let_def update_conv' split: option.splits)

lemma initFile_events: "events (snd (initFile name filePath mdl s)) = events s"
  by (simp add: initFile_def Let_def split: option.splits)

lemma initFile_instance_name:
  "initFile name filePath mdl s = (Inr (Instance i c), s1)
   \<Longrightarrow> map_of (nameMap s1) (Instance i c) = Some (nameOrExtract s name filePath)"
  by (auto simp: initFile_def Let_def update_conv' split: option.splits)

lemma loadFromPath_loaded:
  "map_of (fileMap s) filePath = Some u \<Longrightarrow> loadFromPath w filePath name doEmit s = (Inr u, s)"
  by (simp add: loadFromPath_def)

lemma loadFromPath_fresh:
  assumes "map_of (fileMap s) filePath = None"
    and "loadFromPath w filePath name doEmit s = (Inr u, s1)"
  obtains mdl s' where "importFile w filePath = Inr mdl"
    and "initFile name filePath mdl s = (Inr u, s')"
    and "s1 = (if doEmit then emit (Load name u) s' else s')"
  using assms by (auto simp: loadFromPath_def split: sum.splits prod.splits)

lemma loadFromPath_registers:
  assumes "loadFromPath w filePath name doEmit s = (Inr u, s1)"
  shows "map_of (fileMap s1) filePath = Some u"
proof (cases "map_of (fileMap s) filePath")
  case (Some old)
  with assms show ?thesis by (simp add: loadFromPath_def)
next
  case None
  from loadFromPath_fresh [OF None assms] obtain mdl s'
    where i: "initFile name filePath mdl s = (Inr u, s')"
      and s1: "s1 = (if doEmit then emit (Load name u) s' else s')" by blast
  from initFile_fileMap [OF i] s1 show ?thesis by (simp add: emit_def)
qed

text \<open>
  The watcher handler in flat mode looks the changed path up as it is; a path that folds to
  no key of \<open>fileMap\<close> is dropped and the loader stays as it was.
\<close>

lemma watchedFilePath_flat: "\<not> nested s \<Longrightarrow> watchedFilePath s srcPath = srcPath"
  by (simp add: watchedFilePath_def)

lemma onWatcherEvent_flat_loaded:
  assumes "\<not> nested s" and "map_of (fileMap s) srcPath = Some u"
  shows "onWatcherEvent w srcPath s = Some (reloadFromPath w srcPath s)"
proof -
  from assms(2) have "srcPath \<in> fst ` set (fileMap s)"
    by (metis map_of_eq_None_iff option.distinct(1))
  with assms(1) show ?thesis by (simp add: onWatcherEvent_def watchedFilePath_flat)
qed

lemma onWatcherEvent_not_loaded:
  "map_of (fileMap s) (watchedFilePath s srcPath) = None \<Longrightarrow> onWatcherEvent w srcPath s = None"
  by (simp add: onWatcherEvent_def map_of_eq_None_iff)

section \<open>The identity invariant\<close>

lemma toLowerChar_idem: "toLowerChar (toLowerChar c) = toLowerChar c"
  by (auto simp: toLowerChar_def Let_def)

lemma processName_idem: "processName (processName n) = processName n"
  by (simp add: processName_def toLowerCase_def toLowerChar_idem)

lemma nameFreeD:
  "nameFree s n \<Longrightarrow> map_of (nameMap s) u = Some n' \<Longrightarrow> processName n' \<noteq> processName n"
  by (auto simp: nameFree_def list_all_iff dest: map_of_SomeD)

lemma inv_same_maps:
  assumes "identityInv s" and "fileMap s' = fileMap s" and "nameMap s' = nameMap s"
    and "pathMap s' = pathMap s" and "next_id s' = next_id s"
  shows "identityInv s'"
  using assms by (simp add: identityInv_def)

lemma inv_register_instance:
  assumes inv: "identityInv s" and fresh: "map_of (fileMap s) p = None" and free: "nameFree s n"
    and f: "fileMap s' = AList.update p (Instance (next_id s) cn) (fileMap s)"
    and nm: "nameMap s' = AList.update (Instance (next_id s) cn) n (nameMap s)"
    and pm: "pathMap s' = AList.update (processName n) p (pathMap s)"
    and ni: "next_id s' = Suc (next_id s)"
  shows "identityInv s'"
  unfolding identityInv_def
proof (rule conjI; intro allI impI)
  fix q i c
  assume q: "map_of (fileMap s') q = Some (Instance i c)"
  show "i < next_id s' \<and> (\<exists>m. map_of (nameMap s') (Instance i c) = Some m \<and>
             map_of (pathMap s') (processName m) = Some q)"
  proof (cases "q = p")
    case True
    with q f have "Instance i c = Instance (next_id s) cn" by (simp add: update_conv')
    with True show ?thesis by (simp add: nm pm ni update_conv')
  next
    case False
    with q f have old: "map_of (fileMap s) q = Some (Instance i c)" by (simp add: update_conv')
    with inv obtain m where lt: "i < next_id s"
      and m: "map_of (nameMap s) (Instance i c) = Some m"
      and pq: "map_of (pathMap s) (processName m) = Some q"
      unfolding identityInv_def by blast
    from nameFreeD [OF free m] have "processName m \<noteq> processName n" .
    with lt m pq show ?thesis by (auto simp: nm pm ni update_conv')
  qed
next
  fix u m
  assume u: "map_of (nameMap s') u = Some m"
  show "\<exists>q i c. u = Instance i c \<and> map_of (fileMap s') q = Some u"
  proof (cases "u = Instance (next_id s) cn")
    case True
    then show ?thesis by (auto simp: f update_conv')
  next
    case False
    with u nm have "map_of (nameMap s) u = Some m" by (simp add: update_conv')
    with inv obtain q i c where "u = Instance i c" and q: "map_of (fileMap s) q = Some u"
      unfolding identityInv_def by blast
    moreover from q fresh have "q \<noteq> p" by auto
    ultimately show ?thesis by (auto simp: f update_conv')
  qed
qed

lemma inv_register_raw:
  assumes inv: "identityInv s" and fresh: "map_of (fileMap s) p = None"
    and f: "fileMap s' = AList.update p (Raw m) (fileMap s)"
    and nm: "nameMap s' = nameMap s" and pm: "pathMap s' = pathMap s"
    and ni: "next_id s' = next_id s"
  shows "identityInv s'"
  unfolding identityInv_def
proof (rule conjI; intro allI impI)
  fix q i c
  assume "map_of (fileMap s') q = Some (Instance i c)"
  with f have "map_of (fileMap s) q = Some (Instance i c)"
    by (cases "q = p") (simp_all add: update_conv')
  with inv show "i < next_id s' \<and> (\<exists>m. map_of (nameMap s') (Instance i c) = Some m \<and>
             map_of (pathMap s') (processName m) = Some q)"
    unfolding identityInv_def nm pm ni by blast
next
  fix u n
  assume "map_of (nameMap s') u = Some n"
  with inv nm obtain q i c where "u = Instance i c" and q: "map_of (fileMap s) q = Some u"
    unfolding identityInv_def by force
  moreover from q fresh have "q \<noteq> p" by auto
  ultimately show "\<exists>q i c. u = Instance i c \<and> map_of (fileMap s') q = Some u"
    by (auto simp: f update_conv')
qed

lemma inv_remove:
  assumes inv: "identityInv s" and at: "map_of (fileMap s) p = Some u"
    and f: "fileMap s' = AList.delete p (fileMap s)"
    and nm: "nameMap s' = AList.delete u (nameMap s)"
    and pm: "pathMap s' = (case map_of (nameMap s) u of
                             None \<Rightarrow> pathMap s | Some n \<Rightarrow> AList.delete n (pathMap s))"
    and ni: "next_id s' = next_id s"
  shows "identityInv s'"
  unfolding identityInv_def
proof (rule conjI; intro allI impI)
  fix q i c
  assume q': "map_of (fileMap s') q = Some (Instance i c)"
  then have qp: "q \<noteq> p" by (auto simp: f delete_conv')
  with q' have q: "map_of (fileMap s) q = Some (Instance i c)" by (simp add: f delete_conv')
  with inv obtain m where lt: "i < next_id s"
    and m: "map_of (nameMap s) (Instance i c) = Some m"
    and pq: "map_of (pathMap s) (processName m) = Some q"
    unfolding identityInv_def by blast
  have ne: "Instance i c \<noteq> u"
  proof
    assume eq: "Instance i c = u"
    with at inv m have "map_of (pathMap s) (processName m) = Some p"
      unfolding identityInv_def by fastforce
    with pq qp show False by simp
  qed
  have "map_of (pathMap s') (processName m) = Some q"
  proof (cases "map_of (nameMap s) u")
    case None
    with pq show ?thesis by (simp add: pm)
  next
    case (Some n)
    have "processName m \<noteq> n"
    proof
      assume eq: "processName m = n"
      from Some inv obtain j d where uj: "u = Instance j d" unfolding identityInv_def by blast
      with at Some inv have "map_of (pathMap s) (processName n) = Some p"
        unfolding identityInv_def by fastforce
      moreover from eq have "processName n = processName m"
        using processName_idem [of m] by simp
      ultimately show False using pq qp by simp
    qed
    with pq Some show ?thesis by (simp add: pm delete_conv')
  qed
  with lt m ne show "i < next_id s' \<and> (\<exists>m. map_of (nameMap s') (Instance i c) = Some m \<and>
             map_of (pathMap s') (processName m) = Some q)"
    by (auto simp: nm ni delete_conv')
next
  fix v n
  assume v': "map_of (nameMap s') v = Some n"
  then have vu: "v \<noteq> u" by (auto simp: nm delete_conv')
  with v' have "map_of (nameMap s) v = Some n" by (simp add: nm delete_conv')
  with inv obtain q i c where vi: "v = Instance i c" and q: "map_of (fileMap s) q = Some v"
    unfolding identityInv_def by blast
  from q at vu have "q \<noteq> p" by auto
  with vi q show "\<exists>q i c. v = Instance i c \<and> map_of (fileMap s') q = Some v"
    by (auto simp: f delete_conv')
qed


lemma findConstructor_watcher: "findConstructor (s\<lparr>watcher := ws\<rparr>) = findConstructor s"
  by (simp add: findConstructor_def fun_eq_iff)

lemma initFile_state:
  "snd (initFile name p m s) =
     (let n = nameOrExtract s name p;
          ws = map_option (watcher_add (getWatchPath s p)) (watcher s)
      in case (if instantiate (classes s) then findConstructor s n m else None) of
           None \<Rightarrow> s\<lparr>watcher := ws, fileMap := AList.update p (Raw m) (fileMap s)\<rparr>
         | Some c \<Rightarrow>
             (case ctor_throws c of
                Some e \<Rightarrow> s\<lparr>watcher := ws\<rparr>
              | None \<Rightarrow>
                  s\<lparr>watcher := ws, next_id := Suc (next_id s),
                    pathMap := AList.update (processName n) p (pathMap s),
                    nameMap := AList.update (Instance (next_id s) (ctor_name c)) n (nameMap s),
                    fileMap := AList.update p (Instance (next_id s) (ctor_name c)) (fileMap s)\<rparr>))"
  by (simp add: initFile_def Let_def findConstructor_watcher split: option.splits)

lemma initFile_inv:
  assumes "identityInv s" and "map_of (fileMap s) p = None"
    and reg: "\<And>c. instantiate (classes s) \<Longrightarrow> findConstructor s (nameOrExtract s name p) m = Some c
               \<Longrightarrow> ctor_throws c = None \<Longrightarrow> nameFree s (nameOrExtract s name p)"
  shows "identityInv (snd (initFile name p m s))"
proof (cases "if instantiate (classes s) then findConstructor s (nameOrExtract s name p) m else None")
  case None
  then have st: "snd (initFile name p m s) =
      s\<lparr>watcher := map_option (watcher_add (getWatchPath s p)) (watcher s),
        fileMap := AList.update p (Raw m) (fileMap s)\<rparr>"
    unfolding initFile_state Let_def by simp
  show ?thesis
    by (rule inv_register_raw [where s = s and p = p and m = m]) (use assms st in simp_all)
next
  case (Some c)
  note found = this
  show ?thesis
  proof (cases "ctor_throws c")
    case None
    with found have st: "snd (initFile name p m s) =
      s\<lparr>watcher := map_option (watcher_add (getWatchPath s p)) (watcher s),
        next_id := Suc (next_id s),
        pathMap := AList.update (processName (nameOrExtract s name p)) p (pathMap s),
        nameMap := AList.update (Instance (next_id s) (ctor_name c)) (nameOrExtract s name p) (nameMap s),
        fileMap := AList.update p (Instance (next_id s) (ctor_name c)) (fileMap s)\<rparr>"
      unfolding initFile_state Let_def by simp
    from found have "instantiate (classes s)"
      and "findConstructor s (nameOrExtract s name p) m = Some c"
      by (simp_all split: if_splits)
    from reg [OF this None] have free: "nameFree s (nameOrExtract s name p)" .
    show ?thesis
      by (rule inv_register_instance
            [where s = s and p = p and n = "nameOrExtract s name p" and cn = "ctor_name c"])
        (use assms(1,2) free st in simp_all)
  next
    case (Some e)
    with found have st: "snd (initFile name p m s) =
      s\<lparr>watcher := map_option (watcher_add (getWatchPath s p)) (watcher s)\<rparr>"
      unfolding initFile_state Let_def by simp
    show ?thesis by (rule inv_same_maps [where s = s]) (use assms(1) st in simp_all)
  qed
qed

lemma loadFromPath_inv:
  assumes "identityInv s"
    and reg: "\<And>m c. map_of (fileMap s) p = None \<Longrightarrow> importFile w p = Inr m
               \<Longrightarrow> instantiate (classes s)
               \<Longrightarrow> findConstructor s (nameOrExtract s name p) m = Some c
               \<Longrightarrow> ctor_throws c = None \<Longrightarrow> nameFree s (nameOrExtract s name p)"
  shows "identityInv (snd (loadFromPath w p name doEmit s))"
proof (cases "map_of (fileMap s) p")
  case (Some u)
  with assms(1) show ?thesis by (simp add: loadFromPath_def)
next
  case None
  show ?thesis
  proof (cases "importFile w p")
    case (Inl err)
    with None assms(1) show ?thesis by (simp add: loadFromPath_def)
  next
    case (Inr m)
    have i: "identityInv (snd (initFile name p m s))"
      by (rule initFile_inv [OF assms(1) None]) (rule reg [OF None Inr])
    obtain r s1 where e: "initFile name p m s = (r, s1)" by (cases "initFile name p m s")
    with i have i1: "identityInv s1" by simp
    have "identityInv (emit (Load name u) s1)" for u
      by (rule inv_same_maps [where s = s1]) (use i1 in \<open>simp_all add: emit_def\<close>)
    with i1 None Inr e show ?thesis
      by (cases r) (simp_all add: loadFromPath_def)
  qed
qed

lemma update_absent: "map_of al k = None \<Longrightarrow> AList.update k v al = al @ [(k, v)]"
  by (induct al) (auto split: if_splits)

lemma identityInv_next_absent:
  assumes "identityInv s"
  shows "map_of (nameMap s) (Instance (next_id s) c) = None"
proof (cases "map_of (nameMap s) (Instance (next_id s) c)")
  case (Some n)
  with assms obtain p where "map_of (fileMap s) p = Some (Instance (next_id s) c)"
    unfolding identityInv_def by blast
  with assms have "next_id s < next_id s" unfolding identityInv_def by blast
  then show ?thesis by simp
qed simp

lemma loadFromPath_nameMap_registered:
  assumes "map_of (fileMap s) p = None" and "importFile w p = Inr m"
    and "instantiate (classes s)"
    and "findConstructor s (nameOrExtract s name p) m = Some c"
    and "ctor_throws c = None"
  shows "nameMap (snd (loadFromPath w p name doEmit s))
       = AList.update (Instance (next_id s) (ctor_name c)) (nameOrExtract s name p) (nameMap s)"
  using assms
  by (simp add: loadFromPath_def initFile_def Let_def findConstructor_def emit_def)

lemma distinctNames_last:
  assumes "distinctNames s'" and "nameMap s' = nameMap s @ [(u, n)]"
  shows "nameFree s n"
  using assms by (force simp: distinctNames_def nameFree_def list_all_iff)

lemma distinctNames_prefix:
  assumes "distinctNames s'" and "nameMap s' = nameMap s @ xs"
  shows "distinctNames s"
  using assms by (simp add: distinctNames_def)

lemma distinctNames_same: "nameMap s' = nameMap s \<Longrightarrow> distinctNames s' = distinctNames s"
  by (simp add: distinctNames_def)

lemma loadFromPath_inv_distinct:
  assumes inv: "identityInv s"
    and d: "distinctNames (snd (loadFromPath w p name doEmit s))"
  shows "identityInv (snd (loadFromPath w p name doEmit s))"
proof (rule loadFromPath_inv [OF inv])
  fix m c
  assume h: "map_of (fileMap s) p = None" "importFile w p = Inr m" "instantiate (classes s)"
    "findConstructor s (nameOrExtract s name p) m = Some c" "ctor_throws c = None"
  from loadFromPath_nameMap_registered [OF h, of doEmit]
    update_absent [OF identityInv_next_absent [OF inv]]
  have "nameMap (snd (loadFromPath w p name doEmit s))
      = nameMap s @ [(Instance (next_id s) (ctor_name c), nameOrExtract s name p)]"
    by simp
  with d show "nameFree s (nameOrExtract s name p)" by (rule distinctNames_last)
qed

lemma unloadFromPath_inv:
  assumes "identityInv s"
  shows "identityInv (snd (unloadFromPath p doEmit s))"
proof (cases "map_of (fileMap s) p")
  case None
  with assms show ?thesis by (simp add: unloadFromPath_def)
next
  case (Some u)
  note at = this
  let ?s1 = "s\<lparr>watcher := map_option (watcher_unwatch (getWatchPath s p)) (watcher s)\<rparr>"
  show ?thesis
  proof (cases "runDestroy ?s1 u")
    case (Some err)
    with at have st: "snd (unloadFromPath p doEmit s) = ?s1"
      by (simp add: unloadFromPath_def Let_def)
    show ?thesis by (rule inv_same_maps [where s = s]) (use assms st in simp_all)
  next
    case None
    let ?s2 = "?s1\<lparr>fileMap := AList.delete p (fileMap ?s1),
                    pathMap := (case map_of (nameMap ?s1) u of
                                  None \<Rightarrow> pathMap ?s1
                                | Some n \<Rightarrow> AList.delete n (pathMap ?s1)),
                    nameMap := AList.delete u (nameMap ?s1)\<rparr>"
    have inv2: "identityInv ?s2"
      by (rule inv_remove [where s = s and p = p and u = u])
        (use assms at in \<open>simp_all split: option.splits\<close>)
    have "identityInv (emit (Unload u) ?s2)"
      by (rule inv_same_maps [where s = "?s2"]) (use inv2 in \<open>simp_all add: emit_def\<close>)
    with inv2 None at show ?thesis
      by (simp add: unloadFromPath_def Let_def)
  qed
qed

lemma unloadFromPath_distinct:
  assumes "distinctNames s"
  shows "distinctNames (snd (unloadFromPath p doEmit s))"
proof -
  have "distinct (map (\<lambda>(u, n). processName n) (AList.delete k (nameMap s)))" for k
    using assms by (simp add: distinctNames_def AList.delete_eq distinct_map_filter)
  with assms show ?thesis
    by (simp add: unloadFromPath_def Let_def emit_def distinctNames_def
        split: option.splits)
qed

text \<open>
  What \<open>reloadFromPath\<close> does after a successful unload: the state it ends in has the maps
  and the counter of the state the load ends in.
\<close>

lemma reloadFromPath_after_unload:
  assumes "unloadFromPath p True s = (Inr (Some old), s1)"
  shows "\<exists>s2. snd (loadFromPath w p (map_of (nameMap s1) old) False s1) = s2
       \<and> fileMap (snd (reloadFromPath w p s)) = fileMap s2
       \<and> nameMap (snd (reloadFromPath w p s)) = nameMap s2
       \<and> pathMap (snd (reloadFromPath w p s)) = pathMap s2
       \<and> next_id (snd (reloadFromPath w p s)) = next_id s2"
  using assms
  by (simp add: reloadFromPath_def emit_def split: prod.splits sum.splits option.splits)

lemma reloadFromPath_inv:
  assumes inv: "identityInv s"
    and d: "distinctNames (snd (reloadFromPath w p s))"
  shows "identityInv (snd (reloadFromPath w p s))"
proof -
  obtain r s1 where u: "unloadFromPath p True s = (r, s1)" by (cases "unloadFromPath p True s")
  from unloadFromPath_inv [OF inv, of p True] u have inv1: "identityInv s1" by simp
  show ?thesis
  proof (cases r)
    case (Inl e)
    with u inv1 show ?thesis by (simp add: reloadFromPath_def)
  next
    case (Inr ro)
    show ?thesis
    proof (cases ro)
      case None
      with Inr u inv1 show ?thesis by (simp add: reloadFromPath_def)
    next
      case (Some old)
      with Inr u have u': "unloadFromPath p True s = (Inr (Some old), s1)" by simp
      let ?s2 = "snd (loadFromPath w p (map_of (nameMap s1) old) False s1)"
      from reloadFromPath_after_unload [OF u', of w]
      have same: "fileMap (snd (reloadFromPath w p s)) = fileMap ?s2"
        "nameMap (snd (reloadFromPath w p s)) = nameMap ?s2"
        "pathMap (snd (reloadFromPath w p s)) = pathMap ?s2"
        "next_id (snd (reloadFromPath w p s)) = next_id ?s2" by simp_all
      from d same(2) have "distinctNames ?s2" by (simp add: distinctNames_def)
      from loadFromPath_inv_distinct [OF inv1 this] have "identityInv ?s2" .
      then show ?thesis by (rule inv_same_maps) (simp_all add: same)
    qed
  qed
qed

lemma Loader_constructor_inv:
  "Loader_constructor w opts = Inr s \<Longrightarrow> identityInv s"
  by (auto simp: Loader_constructor_def Let_def identityInv_def split: if_splits)

lemma stepwise_inv: "stepwise s \<Longrightarrow> identityInv s"
proof (induction rule: stepwise.induct)
  case (constructed w opts s)
  then show ?case by (rule Loader_constructor_inv)
next
  case (loaded s w filePath name doEmit)
  then show ?case by (simp add: loadFromPath_inv_distinct)
next
  case (unloaded s filePath doEmit)
  then show ?case by (simp add: unloadFromPath_inv)
next
  case (reloaded s w filePath)
  then show ?case by (simp add: reloadFromPath_inv)
next
  case (emitted s e)
  from emitted.IH show ?case by (rule inv_same_maps) (simp_all add: emit_def)
next
  case (readied s)
  from readied.IH show ?case by (rule inv_same_maps) simp_all
qed

lemma stepwise_distinct: "stepwise s \<Longrightarrow> distinctNames s"
proof (induction rule: stepwise.induct)
  case (constructed w opts s)
  then show ?case
    by (auto simp: Loader_constructor_def Let_def distinctNames_def split: if_splits)
next
  case (unloaded s filePath doEmit)
  then show ?case by (simp add: unloadFromPath_distinct)
qed (simp_all add: distinctNames_def emit_def)

section \<open>The other operations are made of these steps\<close>

lemma unload_stepwise: "stepwise s \<Longrightarrow> stepwise (snd (unload name s))"
  by (auto simp: unload_def split: option.splits intro: stepwise.unloaded)

lemma reload_stepwise:
  assumes "stepwise s" and "distinctNames (snd (reload w name s))"
  shows "stepwise (snd (reload w name s))"
  using assms by (auto simp: reload_def split: option.splits if_splits intro: stepwise.reloaded)

lemma loadFromFileName_stepwise:
  assumes "stepwise s" and "distinctNames (snd (loadFromFileName w fileName s))"
  shows "stepwise (snd (loadFromFileName w fileName s))"
  using assms unfolding loadFromFileName_def by (rule stepwise.loaded)

lemma onWatcherEvent_stepwise:
  assumes "stepwise s" and "onWatcherEvent w srcPath s = Some (r, s')" and "distinctNames s'"
  shows "stepwise s'"
proof -
  from assms(2) have "s' = snd (reloadFromPath w (watchedFilePath s srcPath) s)"
    by (auto simp: onWatcherEvent_def Let_def split: if_splits)
  with assms(1,3) show ?thesis by (simp add: stepwise.reloaded)
qed

text \<open>
  \<open>loadFiles\<close>: the loads of the loop only append name rows, so when the names are distinct
  at the end they were distinct after every load of the batch.
\<close>

lemma initFile_names:
  "(nameMap (snd (initFile name p m s)) = nameMap s
      \<and> next_id (snd (initFile name p m s)) = next_id s)
   \<or> (\<exists>cn. nameMap (snd (initFile name p m s))
             = AList.update (Instance (next_id s) cn) (nameOrExtract s name p) (nameMap s)
          \<and> next_id (snd (initFile name p m s)) = Suc (next_id s))"
proof (cases "if instantiate (classes s) then findConstructor s (nameOrExtract s name p) m else None")
  case None
  then show ?thesis unfolding initFile_state Let_def by simp
next
  case (Some c)
  show ?thesis
  proof (cases "ctor_throws c")
    case None
    with Some show ?thesis
      unfolding initFile_state Let_def by (auto intro: exI [of _ "ctor_name c"])
  next
    case (Some e)
    with \<open>_ = Some c\<close> show ?thesis unfolding initFile_state Let_def by simp
  qed
qed

lemma loadFromPath_names:
  "(nameMap (snd (loadFromPath w p name doEmit s)) = nameMap s
      \<and> next_id (snd (loadFromPath w p name doEmit s)) = next_id s)
   \<or> (\<exists>cn. nameMap (snd (loadFromPath w p name doEmit s))
             = AList.update (Instance (next_id s) cn) (nameOrExtract s name p) (nameMap s)
          \<and> next_id (snd (loadFromPath w p name doEmit s)) = Suc (next_id s))"
proof (cases "map_of (fileMap s) p")
  case (Some u)
  then show ?thesis by (simp add: loadFromPath_def)
next
  case None
  show ?thesis
  proof (cases "importFile w p")
    case (Inl err)
    with None show ?thesis by (simp add: loadFromPath_def)
  next
    case (Inr m)
    obtain r s1 where e: "initFile name p m s = (r, s1)" by (cases "initFile name p m s")
    with None Inr have "nameMap (snd (loadFromPath w p name doEmit s)) = nameMap s1"
      and "next_id (snd (loadFromPath w p name doEmit s)) = next_id s1"
      by (cases r; simp add: loadFromPath_def emit_def)+
    with initFile_names [of name p m s] e show ?thesis by simp
  qed
qed

lemma loadFromPath_namesFresh:
  assumes "namesFresh s"
  shows "namesFresh (snd (loadFromPath w p name doEmit s))
       \<and> (\<exists>xs. nameMap (snd (loadFromPath w p name doEmit s)) = nameMap s @ xs)"
  using loadFromPath_names [of w p name doEmit s]
proof (elim disjE exE conjE)
  assume "nameMap (snd (loadFromPath w p name doEmit s)) = nameMap s"
    and "next_id (snd (loadFromPath w p name doEmit s)) = next_id s"
  with assms show ?thesis by (simp add: namesFresh_def)
next
  fix cn
  let ?k = "Instance (next_id s) cn"
  assume nm: "nameMap (snd (loadFromPath w p name doEmit s))
      = AList.update ?k (nameOrExtract s name p) (nameMap s)"
    and ni: "next_id (snd (loadFromPath w p name doEmit s)) = Suc (next_id s)"
  from assms have "map_of (nameMap s) ?k = None"
    unfolding namesFresh_def by (cases "map_of (nameMap s) ?k") auto
  from update_absent [OF this] nm
  have app: "nameMap (snd (loadFromPath w p name doEmit s))
      = nameMap s @ [(?k, nameOrExtract s name p)]" by simp
  have "namesFresh (snd (loadFromPath w p name doEmit s))"
    unfolding namesFresh_def
  proof (intro allI impI)
    fix i d
    assume "map_of (nameMap (snd (loadFromPath w p name doEmit s))) (Instance i d) \<noteq> None"
    then have "map_of (nameMap s) (Instance i d) \<noteq> None \<or> Instance i d = ?k"
      by (auto simp: app split: if_splits)
    with assms show "i < next_id (snd (loadFromPath w p name doEmit s))"
      unfolding namesFresh_def ni by (auto simp: less_Suc_eq)
  qed
  with app show ?thesis by blast
qed

lemma identityInv_namesFresh: "identityInv s \<Longrightarrow> namesFresh s"
  unfolding identityInv_def namesFresh_def by (metis not_None_eq)

lemma loadFilesLoop_names:
  assumes "namesFresh s"
  shows "namesFresh (snd (loadFilesLoop w dir nestedArg files instances s))
       \<and> (\<exists>xs. nameMap (snd (loadFilesLoop w dir nestedArg files instances s)) = nameMap s @ xs)"
  using assms
proof (induction files arbitrary: instances s)
  case Nil
  then show ?case by simp
next
  case (Cons fileName files)
  show ?case
  proof (cases "isFileValid s fileName nestedArg")
    case False
    with Cons show ?thesis by simp
  next
    case True
    let ?fp = "getMainFilePath s fileName dir nestedArg"
    obtain r s1 where l: "loadFromPath w ?fp None True s = (r, s1)"
      by (cases "loadFromPath w ?fp None True s")
    from loadFromPath_namesFresh [OF Cons.prems, of w ?fp None True] l
    obtain xs where f1: "namesFresh s1" and x1: "nameMap s1 = nameMap s @ xs" by auto
    show ?thesis
    proof (cases r)
      case (Inr u)
      from Cons.IH [OF f1, of "instances @ [u]"] x1 True l Inr show ?thesis by auto
    next
      case (Inl err)
      show ?thesis
      proof (cases "emitError w err s1")
        case (Inl t)
        with True l \<open>r = Inl err\<close> f1 x1 show ?thesis by simp
      next
        case (Inr s2)
        then have s2: "s2 = emit (ErrorEvent err) s1"
          by (auto simp: emitError_def split: if_splits)
        with f1 have f2: "namesFresh s2" by (simp add: namesFresh_def emit_def)
        from Cons.IH [OF f2, of instances] x1 s2 True l \<open>r = Inl err\<close> Inr show ?thesis
          by (auto simp: emit_def)
      qed
    qed
  qed
qed

lemma loadFilesLoop_stepwise:
  assumes "stepwise s"
    and "distinctNames (snd (loadFilesLoop w dir nestedArg files instances s))"
  shows "stepwise (snd (loadFilesLoop w dir nestedArg files instances s))"
  using assms
proof (induction files arbitrary: instances s)
  case Nil
  then show ?case by simp
next
  case (Cons fileName files)
  show ?case
  proof (cases "isFileValid s fileName nestedArg")
    case False
    with Cons show ?thesis by simp
  next
    case True
    let ?fp = "getMainFilePath s fileName dir nestedArg"
    obtain r s1 where l: "loadFromPath w ?fp None True s = (r, s1)"
      by (cases "loadFromPath w ?fp None True s")
    from identityInv_namesFresh [OF stepwise_inv [OF Cons.prems(1)]]
    have "namesFresh s" .
    from loadFromPath_namesFresh [OF this, of w ?fp None True] l
    have f1: "namesFresh s1" by simp
    have step: "distinctNames s1 \<Longrightarrow> stepwise s1"
      using stepwise.loaded [OF Cons.prems(1), of w ?fp None True] l by simp
    show ?thesis
    proof (cases r)
      case (Inr u)
      let ?end = "snd (loadFilesLoop w dir nestedArg files (instances @ [u]) s1)"
      from True l Inr have e: "snd (loadFilesLoop w dir nestedArg (fileName # files) instances s) = ?end"
        by simp
      from loadFilesLoop_names [OF f1, of w dir nestedArg files "instances @ [u]"]
      obtain xs where "nameMap ?end = nameMap s1 @ xs" by blast
      with Cons.prems(2) e have "distinctNames s1" by (auto intro: distinctNames_prefix)
      from Cons.IH [OF step [OF this], of "instances @ [u]"] Cons.prems(2) e show ?thesis by simp
    next
      case (Inl err)
      show ?thesis
      proof (cases "emitError w err s1")
        case (Inl t)
        with True l \<open>r = Inl err\<close>
        have "snd (loadFilesLoop w dir nestedArg (fileName # files) instances s) = s1" by simp
        with Cons.prems(2) step show ?thesis by simp
      next
        case (Inr s2)
        then have s2: "s2 = emit (ErrorEvent err) s1"
          by (auto simp: emitError_def split: if_splits)
        let ?end = "snd (loadFilesLoop w dir nestedArg files instances s2)"
        from True l \<open>r = Inl err\<close> Inr
        have e: "snd (loadFilesLoop w dir nestedArg (fileName # files) instances s) = ?end"
          by simp
        from f1 s2 have "namesFresh s2" by (simp add: namesFresh_def emit_def)
        from loadFilesLoop_names [OF this, of w dir nestedArg files instances]
        obtain xs where "nameMap ?end = nameMap s2 @ xs" by blast
        with s2 have "nameMap ?end = nameMap s1 @ xs" by (simp add: emit_def)
        with Cons.prems(2) e have "distinctNames s1" by (auto intro: distinctNames_prefix)
        from step [OF this] s2 have "stepwise s2" by (simp add: stepwise.emitted)
        from Cons.IH [OF this, of instances] Cons.prems(2) e show ?thesis by simp
      qed
    qed
  qed
qed

lemma loadFiles_stepwise:
  assumes "stepwise s" and "distinctNames (snd (loadFiles w dirArg nestedArg s))"
  shows "stepwise (snd (loadFiles w dirArg nestedArg s))"
proof -
  define dir where "dir = (case dirArg of None \<Rightarrow> path s | Some d \<Rightarrow> d)"
  define eff where "eff = (case (if nested s \<and> dir = path s then Some True else nestedArg) of
                             None \<Rightarrow> nested s | Some b \<Rightarrow> b)"
  show ?thesis
  proof (cases "readdir w dir")
    case (Inl err)
    with assms(1) show ?thesis by (simp add: loadFiles_def Let_def dir_def)
  next
    case (Inr files)
    obtain r s1 where l: "loadFilesLoop w dir eff files [] s = (r, s1)"
      by (cases "loadFilesLoop w dir eff files [] s")
    have nm: "nameMap (snd (loadFiles w dirArg nestedArg s)) = nameMap s1"
      using Inr l by (cases r) (simp_all add: loadFiles_def Let_def dir_def eff_def emit_def)
    with assms(2) have "distinctNames s1" by (simp add: distinctNames_def)
    with loadFilesLoop_stepwise [OF assms(1), of w dir eff files "[]"] l
    have r1: "stepwise s1" by simp
    show ?thesis
    proof (cases r)
      case (Inl e)
      with Inr l r1 show ?thesis by (simp add: loadFiles_def Let_def dir_def eff_def)
    next
      case (Inr instances)
      have "stepwise (emit (LoadMany instances) s1)" by (rule stepwise.emitted [OF r1])
      moreover from r1
      have "stepwise (emit Ready (emit (LoadMany instances) s1\<lparr>ready := True\<rparr>))"
        by (intro stepwise.emitted stepwise.readied)
      ultimately show ?thesis
        using \<open>readdir w dir = Inr files\<close> l Inr
        by (simp add: loadFiles_def Let_def dir_def eff_def)
    qed
  qed
qed

lemma reachable_stepwise: "reachable s \<Longrightarrow> stepwise s"
proof (induction rule: reachable.induct)
  case (constructed w opts s)
  then show ?case by (rule stepwise.constructed)
next
  case (filesLoaded s w dirArg nestedArg)
  then show ?case by (simp add: loadFiles_stepwise)
next
  case (loaded s w filePath name doEmit)
  then show ?case by (simp add: stepwise.loaded)
next
  case (loadedByFileName s w fileName)
  then show ?case by (simp add: loadFromFileName_stepwise)
next
  case (unloaded s filePath doEmit)
  then show ?case by (simp add: stepwise.unloaded)
next
  case (unloadedByName s name)
  then show ?case by (simp add: unload_stepwise)
next
  case (reloaded s w filePath)
  then show ?case by (simp add: stepwise.reloaded)
next
  case (reloadedByName s w name)
  then show ?case by (simp add: reload_stepwise)
next
  case (watched s w srcPath r s')
  then show ?case by (blast intro: onWatcherEvent_stepwise)
qed


lemma reachable_distinct: "reachable s \<Longrightarrow> distinctNames s"
  by (rule stepwise_distinct) (rule reachable_stepwise)

section \<open>The claims\<close>

text \<open>
  Claim C1, evaluated on the code. The file \<open>/srv/files/Foo.ts\<close> is loaded by a flat loader
  and registered under the name \<open>Foo\<close>, so its path row has the key \<open>foo\<close>. After
  \<open>unloadFromPath\<close> has completed successfully, the path is absent from \<open>fileMap\<close> and the
  instance from \<open>nameMap\<close>, but the path row is still there: \<^verbatim>\<open>pathMap.delete(name)\<close> is
  given the name as registered, not the lowered key. The name \<open>Foo\<close> still resolves, and
  \<open>reload\<close> by that name does not fail with \<open>FileNotFoundError\<close>.
\<close>

theorem unloadFromPath_leaves_path_row:
  "fst (unloadFromPath fooPath True fooLoaded) = Inr (Some (Instance 0 ''Widget''))
   \<and> map_of (fileMap fooLoaded) fooPath = Some (Instance 0 ''Widget'')
   \<and> map_of (fileMap fooUnloaded) fooPath = None
   \<and> map_of (nameMap fooUnloaded) (Instance 0 ''Widget'') = None
   \<and> pathMap fooUnloaded = [(''foo'', fooPath)]
   \<and> findPathFromName fooUnloaded ''Foo'' = Some fooPath
   \<and> fst (reload demoWorld ''Foo'' fooUnloaded) = Inr None"
  by code_simp

text \<open>
  Claim C2, evaluated on the code. The file \<open>/srv/files/a.ts\<close> is loaded under the
  caller-supplied name \<open>custom\<close>. \<open>reloadFromPath\<close> destroys the old instance, emits
  \<open>unload\<close>, suppresses \<open>load\<close> and emits \<open>reload\<close> with the new and the old instance, but
  the replacement is registered under the name extracted from the path, \<open>a\<close>: the name
  handed to the load is looked up in \<open>nameMap\<close> after the unload has deleted it. The name
  \<open>custom\<close> no longer resolves.
\<close>

theorem reloadFromPath_drops_registered_name:
  "map_of (nameMap customLoaded) (Instance 0 ''Widget'') = Some ''custom''
   \<and> findPathFromName customLoaded ''custom'' = Some aPath
   \<and> fst (reloadFromPath demoWorld aPath customLoaded) = Inr (Some (Instance 1 ''Widget''))
   \<and> fileMap customReloaded = [(aPath, Instance 1 ''Widget'')]
   \<and> nameMap customReloaded = [(Instance 1 ''Widget'', ''a'')]
   \<and> pathMap customReloaded = [(''a'', aPath)]
   \<and> findPathFromName customReloaded ''custom'' = None
   \<and> events customReloaded =
       [Load (Some ''custom'') (Instance 0 ''Widget''), Unload (Instance 0 ''Widget''),
        Reload (Instance 1 ''Widget'') (Instance 0 ''Widget'')]"
  by code_simp

text \<open>
  Claim C3, as amended. For a path with no loaded unit, \<open>reloadFromPath\<close> loads nothing:
  the module is not resolved, no event is emitted, the loader is unchanged and the result
  is the absent unit. The load sits behind the guard \<^verbatim>\<open>if (oldInstance)\<close>.
\<close>

theorem reloadFromPath_absent:
  "map_of (fileMap s) filePath = None \<Longrightarrow> reloadFromPath w filePath s = (Inr None, s)"
  by (simp add: reloadFromPath_def unloadFromPath_def)

theorem reloadFromPath_absent_witness:
  "map_of (fileMap flatLoader) fooPath = None
   \<and> reloadFromPath demoWorld fooPath flatLoader = (Inr None, flatLoader)"
  using reloadFromPath_absent [of flatLoader fooPath demoWorld] by (simp add: flatLoader_def)

text \<open>
  The claim as stated fails: \<open>/srv/files/Foo.ts\<close> is not loaded and resolves, a plain load
  registers an instance for it, and \<open>reloadFromPath\<close> registers nothing.
\<close>

theorem reloadFromPath_absent_is_not_a_load:
  "map_of (fileMap flatLoader) fooPath = None
   \<and> importFile demoWorld fooPath = Inr widgetModule
   \<and> fst (loadFromPath demoWorld fooPath None True flatLoader) = Inr (Instance 0 ''Widget'')
   \<and> map_of (fileMap (snd (loadFromPath demoWorld fooPath None True flatLoader))) fooPath
       = Some (Instance 0 ''Widget'')
   \<and> fst (reloadFromPath demoWorld fooPath flatLoader) = Inr None
   \<and> map_of (fileMap (snd (reloadFromPath demoWorld fooPath flatLoader))) fooPath = None"
  by code_simp

text \<open>
  Claim C4. When a call of \<open>loadFromPath\<close> has returned a unit, a second call on the same
  path, with whatever name and emit flag and in whatever world (even one where the module
  no longer resolves), returns that same unit and leaves the loader as it was: no
  resolution, no constructor call, no event.
\<close>

theorem loadFromPath_idempotent:
  assumes "loadFromPath w filePath name doEmit s = (Inr u, s1)"
  shows "loadFromPath w' filePath name' doEmit' s1 = (Inr u, s1)"
  using loadFromPath_registers [OF assms] by (rule loadFromPath_loaded)

theorem loadFromPath_idempotent_witness:
  "loadFromPath demoWorld fooPath None True flatLoader = (Inr (Instance 0 ''Widget''), fooLoaded)
   \<and> loadFromPath demoWorld fooPath None True fooLoaded = (Inr (Instance 0 ''Widget''), fooLoaded)"
proof -
  have "fst (loadFromPath demoWorld fooPath None True flatLoader) = Inr (Instance 0 ''Widget'')"
    by code_simp
  then have first: "loadFromPath demoWorld fooPath None True flatLoader
      = (Inr (Instance 0 ''Widget''), fooLoaded)"
    by (simp add: fooLoaded_def prod_eq_iff)
  from first loadFromPath_idempotent [OF first, of demoWorld None True] show ?thesis by simp
qed

text \<open>
  Claim C5, as amended. When the path is loaded and the configured destroy hook throws or
  rejects with a value other than \<^verbatim>\<open>undefined\<close> and \<^verbatim>\<open>null\<close>, \<open>unloadFromPath\<close> fails
  with \<open>DestroyFileError\<close> carrying that value, the path and the instance. No row of
  \<open>fileMap\<close>, \<open>pathMap\<close> or \<open>nameMap\<close> is removed and no event is emitted. The loader is
  as it was except for the watcher: \<^verbatim>\<open>watcher.unwatch\<close> comes before the hook, so with a
  watcher the unit's watch path has already left the watch set.
\<close>

theorem unloadFromPath_destroy_failure:
  assumes "map_of (fileMap s) filePath = Some inst"
    and "destroy (classes s) = Some d" and "d inst = Some err" and "err \<noteq> Nullish"
  shows "unloadFromPath filePath doEmit s =
           (Inl (DestroyFileError err filePath inst),
            s\<lparr>watcher := map_option (watcher_unwatch (getWatchPath s filePath)) (watcher s)\<rparr>)
       \<and> fileMap (snd (unloadFromPath filePath doEmit s)) = fileMap s
       \<and> pathMap (snd (unloadFromPath filePath doEmit s)) = pathMap s
       \<and> nameMap (snd (unloadFromPath filePath doEmit s)) = nameMap s
       \<and> events (snd (unloadFromPath filePath doEmit s)) = events s"
  using assms
  by (simp add: unloadFromPath_def runDestroy_def Let_def new_DestroyFileError_def ProxyError_def)

theorem unloadFromPath_destroy_failure_witness:
  "map_of (fileMap destroyFailsLoader) aPath = Some (Instance 0 ''Widget'')
   \<and> unloadFromPath aPath True destroyFailsLoader
       = (Inl (DestroyFileError (ErrorObject ''teardown failed'') aPath (Instance 0 ''Widget'')),
          destroyFailsLoader\<lparr>watcher := Some []\<rparr>)
   \<and> fileMap (snd (unloadFromPath aPath True destroyFailsLoader)) = [(aPath, Instance 0 ''Widget'')]
   \<and> pathMap (snd (unloadFromPath aPath True destroyFailsLoader)) = [(''a'', aPath)]
   \<and> nameMap (snd (unloadFromPath aPath True destroyFailsLoader)) = [(Instance 0 ''Widget'', ''a'')]
   \<and> events (snd (unloadFromPath aPath True destroyFailsLoader))
       = [Load None (Instance 0 ''Widget'')]"
  using unloadFromPath_destroy_failure
    [of destroyFailsLoader aPath "Instance 0 ''Widget''"
        "\<lambda>u. Some (ErrorObject ''teardown failed'')" "ErrorObject ''teardown failed''" True]
  by (simp add: destroyFailsLoader_def getWatchPath_def watcher_unwatch_def)

text \<open>
  The claim as stated fails twice over. A loader that watches \<open>/srv/files/a.ts\<close> has a
  destroy hook that rejects with \<^verbatim>\<open>undefined\<close>: building the \<open>DestroyFileError\<close> reads
  \<^verbatim>\<open>err.message\<close> and throws a \<^verbatim>\<open>TypeError\<close>, which is what the caller gets, and the
  watch set has lost the path. With a hook that rejects with an \<^verbatim>\<open>Error\<close> the caller gets
  the \<open>DestroyFileError\<close>, and the watch set has lost the path all the same.
\<close>

theorem unloadFromPath_destroy_failure_not_unchanged:
  "map_of (fileMap destroyRejectsLoader) aPath = Some (Instance 0 ''Widget'')
   \<and> fst (unloadFromPath aPath True destroyRejectsLoader) = Inl TypeError
   \<and> watcher destroyRejectsLoader = Some [aPath]
   \<and> watcher (snd (unloadFromPath aPath True destroyRejectsLoader)) = Some []
   \<and> map_of (fileMap destroyFailsLoader) aPath = Some (Instance 0 ''Widget'')
   \<and> fst (unloadFromPath aPath True destroyFailsLoader)
       = Inl (DestroyFileError (ErrorObject ''teardown failed'') aPath (Instance 0 ''Widget''))
   \<and> watcher destroyFailsLoader = Some [aPath]
   \<and> watcher (snd (unloadFromPath aPath True destroyFailsLoader)) = Some []"
  by code_simp

text \<open>
  Claim C6, as amended. When instantiation is enabled and a constructor is found, the
  identity table registers the unit under the caller-supplied name or, failing that, the
  name extracted from the path: the path row is keyed by that name lowered and the name row
  of the new instance holds that name. The constructor's own name enters neither map; it
  only labels the instance.
\<close>

theorem loadFromPath_registers_extracted_name:
  assumes "map_of (fileMap s) filePath = None"
    and "importFile w filePath = Inr mdl"
    and "instantiate (classes s)"
    and "findConstructor s (nameOrExtract s name filePath) mdl = Some c"
    and "ctor_throws c = None"
  shows "fst (loadFromPath w filePath name doEmit s) = Inr (Instance (next_id s) (ctor_name c))
       \<and> pathMap (snd (loadFromPath w filePath name doEmit s))
           = AList.update (processName (nameOrExtract s name filePath)) filePath (pathMap s)
       \<and> nameMap (snd (loadFromPath w filePath name doEmit s))
           = AList.update (Instance (next_id s) (ctor_name c))
               (nameOrExtract s name filePath) (nameMap s)
       \<and> findPathFromName (snd (loadFromPath w filePath name doEmit s))
           (nameOrExtract s name filePath) = Some filePath"
  using assms
  by (simp add: loadFromPath_def initFile_def Let_def findConstructor_def emit_def
      findPathFromName_def update_conv')

theorem loadFromPath_registers_extracted_name_witness:
  "map_of (fileMap flatLoader) aPath = None
   \<and> findConstructor flatLoader (nameOrExtract flatLoader None aPath) widgetModule = Some widgetCtor
   \<and> nameOrExtract flatLoader None aPath = ''a''
   \<and> fst (loadFromPath demoWorld aPath None True flatLoader) = Inr (Instance 0 ''Widget'')
   \<and> findPathFromName (snd (loadFromPath demoWorld aPath None True flatLoader)) ''a'' = Some aPath"
proof -
  have n: "nameOrExtract flatLoader None aPath = ''a''" by code_simp
  have c: "findConstructor flatLoader (nameOrExtract flatLoader None aPath) widgetModule
      = Some widgetCtor"
    by (simp add: findConstructor_def flatLoader_def defaultClassOptions_def widgetModule_def)
  have f: "map_of (fileMap flatLoader) aPath = None" by (simp add: flatLoader_def)
  have i: "importFile demoWorld aPath = Inr widgetModule" by (simp add: demoWorld_def)
  have t: "instantiate (classes flatLoader)" by (simp add: flatLoader_def defaultClassOptions_def)
  have z: "next_id flatLoader = 0" "ctor_name widgetCtor = ''Widget''"
    "ctor_throws widgetCtor = None" by (simp_all add: flatLoader_def widgetCtor_def)
  from loadFromPath_registers_extracted_name [OF f i t c z(3), of True] n c f z
  show ?thesis by simp
qed

text \<open>
  The claim as stated fails: \<open>/srv/files/a.ts\<close> exports the class \<open>Widget\<close>, and after the
  load the registered name is \<open>a\<close>; the constructor's name does not resolve.
\<close>

theorem constructor_name_not_registered:
  "fst (loadFromPath demoWorld aPath None True flatLoader) = Inr (Instance 0 ''Widget'')
   \<and> map_of (nameMap aLoaded) (Instance 0 ''Widget'') = Some ''a''
   \<and> pathMap aLoaded = [(''a'', aPath)]
   \<and> findPathFromName aLoaded ''a'' = Some aPath
   \<and> findPathFromName aLoaded ''Widget'' = None"
  by code_simp

text \<open>
  Claim C7, as amended. With a root path that is not empty, nesting enabled and no
  main-file rule, the constructor does not fail: the main file defaults to \<open>index\<close>
  followed by the extension of the loader's own file, and the loader is constructed in
  nested mode with that rule.
\<close>

theorem Loader_constructor_default_mainFile:
  assumes "opt_path opts \<noteq> []" and "opt_nested opts" and "opt_mainFile opts = None"
  shows "\<exists>s. Loader_constructor w opts = Inr s \<and> nested s
             \<and> mainFile s = Literal (''index'' @ fileExt w)"
  using assms by (simp add: Loader_constructor_def Let_def resolve_nonempty mainFileFalsy_def)

theorem Loader_constructor_default_mainFile_witness:
  "opt_path nestedOptions \<noteq> [] \<and> opt_nested nestedOptions \<and> opt_mainFile nestedOptions = None
   \<and> (\<exists>s. Loader_constructor demoWorld nestedOptions = Inr s \<and> nested s
           \<and> mainFile s = Literal ''index.ts'')"
proof -
  have h: "opt_path nestedOptions \<noteq> []" "opt_nested nestedOptions"
    "opt_mainFile nestedOptions = None"
    by (simp_all add: nestedOptions_def)
  from Loader_constructor_default_mainFile [OF h, of demoWorld] h show ?thesis
    by (simp add: demoWorld_def)
qed

text \<open>
  The claim as stated fails: a nested configuration without a main-file rule is accepted.
\<close>

theorem Loader_constructor_nested_without_mainFile:
  "opt_nested nestedOptions \<and> opt_mainFile nestedOptions = None
   \<and> Loader_constructor demoWorld nestedOptions = Inr nestedLoader"
  by (simp add: Loader_constructor_def nestedOptions_def nestedLoader_def demoWorld_def Let_def
      resolve_def isAbsolute_def mainFileFalsy_def)




text \<open>
  Why the names must stay distinct: \<open>loadFiles\<close> on a directory with \<open>a.ts\<close> and \<open>a.js\<close>
  registers both under \<open>a\<close>. The one path row for \<open>a\<close> then leads to the second file, and
  the first instance no longer finds its way back to its own path.
\<close>

lemma name_collision_breaks_round_trip:
  "fst (loadFiles demoWorld None None flatLoader)
     = Inr [Instance 0 ''Widget'', Instance 1 ''Widget'', Instance 2 ''Widget'']
   \<and> map_of (fileMap filesLoaded) aPath = Some (Instance 0 ''Widget'')
   \<and> map_of (fileMap filesLoaded) aJsPath = Some (Instance 1 ''Widget'')
   \<and> map_of (nameMap filesLoaded) (Instance 0 ''Widget'') = Some ''a''
   \<and> findPathFromName filesLoaded ''a'' = Some aJsPath
   \<and> \<not> distinctNames filesLoaded"
  by code_simp

text \<open>
  Nothing is said about the path rows of a raw module: \<open>Foo.ts\<close> is loaded as an instance
  and unloaded, which leaves the path row \<open>foo\<close> behind; when the file then resolves to a
  module with no constructor, the raw module sits at a path that a name still leads to.
\<close>

lemma raw_module_with_path_row:
  "map_of (fileMap fooReloadedRaw) fooPath = Some (Raw (Module 1 []))
   \<and> map_of (nameMap fooReloadedRaw) (Raw (Module 1 [])) = None
   \<and> findPathFromName fooReloadedRaw ''Foo'' = Some fooPath"
  by code_simp

text \<open>
  Claim C9, evaluated on the code. A nested loader rooted at \<open>/srv/mods\<close> with a watcher
  has loaded the unit \<open>bakery\<close>, whose key in \<open>fileMap\<close> is its main-file path
  \<open>/srv/mods/bakery/index.ts\<close>. A change notification for a file inside the unit's
  directory, or for the main file itself, is folded to the relative directory name
  \<open>bakery\<close>, which is no key of \<open>fileMap\<close>: the notification is dropped and nothing is
  reloaded.
\<close>

theorem watcher_nested_fold_misses_unit:
  "map_of (fileMap bakeryLoaded) bakeryPath = Some (Instance 0 ''Widget'')
   \<and> watcher bakeryLoaded = Some [''/srv/mods/bakery'']
   \<and> watchedFilePath bakeryLoaded ''/srv/mods/bakery/lib/util.ts'' = ''bakery''
   \<and> watchedFilePath bakeryLoaded bakeryPath = ''bakery''
   \<and> map_of (fileMap bakeryLoaded) ''bakery'' = None
   \<and> onWatcherEvent demoWorld ''/srv/mods/bakery/lib/util.ts'' bakeryLoaded = None
   \<and> onWatcherEvent demoWorld bakeryPath bakeryLoaded = None"
  by code_simp

text \<open>
  Claim C10. When \<open>loadFromPath\<close> is called without a name on a path that is not loaded and
  the load succeeds, the one event it emits is \<open>load\<close> with the absent name as payload;
  an instantiated unit is meanwhile registered under the name extracted from the path,
  which \<open>initFile\<close> does not hand back.
\<close>

theorem loadFromPath_emits_absent_name:
  assumes "map_of (fileMap s) filePath = None"
    and "loadFromPath w filePath None True s = (Inr u, s1)"
  shows "events s1 = events s @ [Load None u]
       \<and> (case u of
            Instance i c \<Rightarrow> map_of (nameMap s1) u = Some (extractNameFromFilePath s filePath)
          | Raw m \<Rightarrow> True)"
proof -
  from loadFromPath_fresh [OF assms] obtain mdl s'
    where i: "initFile None filePath mdl s = (Inr u, s')"
      and "s1 = (if True then emit (Load None u) s' else s')" by blast
  then have s1: "s1 = emit (Load None u) s'" by simp
  from initFile_events [of None filePath mdl s] i have "events s' = events s" by simp
  with s1 have e: "events s1 = events s @ [Load None u]" by (simp add: emit_def)
  show ?thesis
  proof (cases u)
    case (Instance j c)
    with initFile_instance_name [of None filePath mdl s j c s'] i s1 e show ?thesis
      by (simp add: emit_def nameOrExtract_def)
  next
    case (Raw m)
    with e show ?thesis by simp
  qed
qed

theorem loadFromPath_emits_absent_name_witness:
  "map_of (fileMap flatLoader) fooPath = None
   \<and> loadFromPath demoWorld fooPath None True flatLoader = (Inr (Instance 0 ''Widget''), fooLoaded)
   \<and> events fooLoaded = [Load None (Instance 0 ''Widget'')]
   \<and> map_of (nameMap fooLoaded) (Instance 0 ''Widget'') = Some ''Foo''"
proof -
  have f: "map_of (fileMap flatLoader) fooPath = None" by (simp add: flatLoader_def)
  have "fst (loadFromPath demoWorld fooPath None True flatLoader) = Inr (Instance 0 ''Widget'')"
    by code_simp
  then have l: "loadFromPath demoWorld fooPath None True flatLoader
      = (Inr (Instance 0 ''Widget''), fooLoaded)"
    by (simp add: fooLoaded_def prod_eq_iff)
  have x: "extractNameFromFilePath flatLoader fooPath = ''Foo''" by code_simp
  from loadFromPath_emits_absent_name [OF f l] f l x show ?thesis
    by (simp add: flatLoader_def)
qed


end
